theory Spec2Isabelle
  imports Main
begin

section \<open>Common data\<close>

text \<open>
  A Python \<open>datetime\<close> is modelled at minute resolution as the number of minutes since a
  fixed epoch. Both programs only compare such values and add whole minutes to them.
\<close>

type_synonym datetime = int

text \<open>The Python exceptions that the modelled functions can raise.\<close>

datatype py_error = IndexError | ValueError | AttributeError | RequestError

subsection \<open>Python strings: \<open>str(int)\<close> and \<open>str.lower()\<close>\<close>

definition digit_char :: "nat \<Rightarrow> char" where
  "digit_char d = ''0123456789'' ! d"

fun str_nat :: "nat \<Rightarrow> string" where
  "str_nat n = (if n < 10 then [digit_char n] else str_nat (n div 10) @ [digit_char (n mod 10)])"

declare str_nat.simps [simp del]

definition str_int :: "int \<Rightarrow> string" where
  "str_int i = (if i < 0 then CHR ''-'' # str_nat (nat (- i)) else str_nat (nat i))"

text \<open>
  \<open>str.lower()\<close> maps the capital letters to the small ones. Beyond ASCII Python also
  lowers other cased letters, none of them to an ASCII letter, so that the comparisons of
  a lowered string with \<open>"y"\<close> and \<open>"yes"\<close> made below come out the same.
\<close>

definition lower_char :: "char \<Rightarrow> char" where
  "lower_char c =
     (case map_of (zip ''ABCDEFGHIJKLMNOPQRSTUVWXYZ'' ''abcdefghijklmnopqrstuvwxyz'') c of
        Some l \<Rightarrow> l
      | None \<Rightarrow> c)"

definition lower :: "string \<Rightarrow> string" where
  "lower s = map lower_char s"

subsection \<open>Python dictionaries in insertion order\<close>

text \<open>
  A \<open>dict\<close> keeps its keys unique and in insertion order: assigning to a present key
  replaces the value in place, assigning to a new key appends, \<open>pop\<close> deletes the entry of
  the key, and \<open>len\<close> counts the entries.
\<close>

type_synonym ('k, 'v) dict = "('k \<times> 'v) list"

definition dict_keys :: "('k, 'v) dict \<Rightarrow> 'k list" where
  "dict_keys d = map fst d"

definition dict_values :: "('k, 'v) dict \<Rightarrow> 'v list" where
  "dict_values d = map snd d"

fun dict_set :: "'k \<Rightarrow> 'v \<Rightarrow> ('k, 'v) dict \<Rightarrow> ('k, 'v) dict" where
  "dict_set k v [] = [(k, v)]"
| "dict_set k v (p # ps) = (if fst p = k then (k, v) # ps else p # dict_set k v ps)"

fun dict_pop :: "'k \<Rightarrow> ('k, 'v) dict \<Rightarrow> ('k, 'v) dict" where
  "dict_pop k [] = []"
| "dict_pop k (p # ps) = (if fst p = k then ps else p # dict_pop k ps)"

section \<open>TimeSync: \<open>src/timesync.py\<close>\<close>

text \<open>
  The global \<open>TIMEFRAMES\<close> maps a timeframe id to a \<open>TimeFrame\<close> object. The class
  \<open>TimeFrame\<close> lives in \<open>timeframe.py\<close>, which is not part of the sources at hand, so the
  type of timeframe objects is a type variable; the constructor \<open>TimeFrame(...)\<close> and the
  method \<open>get_norm_times()\<close> are parameters of the functions that call them. The
  constructor may raise, hence its result is a sum.
\<close>

type_synonym 'tf timeframes = "(string, 'tf) dict"

text \<open>
  What the functions print, one constructor per message of the source:
  \<^item> \<open>AlreadyExists id\<close>: "A timeframe with ID "id" already exists." followed by the
    overwrite prompt;
  \<^item> \<open>ActionAborted\<close>: "Action aborted. Timeframe entry was not overwritten.";
  \<^item> \<open>TimeframeAdded\<close>: "Timeframe added.";
  \<^item> \<open>DoesNotExist id\<close>: "remove: Timeframe with the ID "id" does not exist.";
  \<^item> \<open>TimeframeRemoved id\<close>: "Timeframe "id" removed.";
  \<^item> \<open>ResetPrompt\<close>: "Are you sure you want to reset this session? ...";
  \<^item> \<open>RemovedAll\<close>: "Removed all timeframes.";
  \<^item> \<open>TooFewTimeframes n\<close>: "find:n timeframe(s) provided. Provide at least 2 timeframes
    to find a shared timeframe.";
  \<^item> \<open>SharedTimeframe s e\<close>: "Shared timeframe from s to e UTC+00:00.";
  \<^item> \<open>NoSharedTimeframe\<close>: "No shared timeframe exists among the timeframes provided.".
\<close>

datatype message =
    AlreadyExists string
  | ActionAborted
  | TimeframeAdded
  | DoesNotExist string
  | TimeframeRemoved string
  | ResetPrompt
  | RemovedAll
  | TooFewTimeframes nat
  | SharedTimeframe datetime datetime
  | NoSharedTimeframe

text \<open>
  \<open>add_timeframe\<close>. The argument \<open>response\<close> is what the user types at the overwrite
  prompt; it is read only when the id is already present.
\<close>

definition add_timeframe ::
  "(string \<Rightarrow> datetime \<Rightarrow> datetime \<Rightarrow> 'e + 'tf) \<Rightarrow> string option \<Rightarrow> string \<Rightarrow> datetime \<Rightarrow> datetime
     \<Rightarrow> string \<Rightarrow> 'tf timeframes \<Rightarrow> 'e + (message list \<times> 'tf timeframes)" where
  "add_timeframe TimeFrame timeframe_id utc_offset start_time end_time response TIMEFRAMES =
     (let tid = (case timeframe_id of
                   None \<Rightarrow> ''Timeframe '' @ str_int (int (length TIMEFRAMES) - 1)
                 | Some i \<Rightarrow> i);
          present = (tid \<in> set (dict_keys TIMEFRAMES))
      in if present \<and> lower response \<notin> set [''y'', ''yes'']
         then Inr ([AlreadyExists tid, ActionAborted], TIMEFRAMES)
         else (case TimeFrame utc_offset start_time end_time of
                 Inl e \<Rightarrow> Inl e
               | Inr new_timeframe \<Rightarrow>
                   Inr ((if present then [AlreadyExists tid] else []) @ [TimeframeAdded],
                        dict_set tid new_timeframe TIMEFRAMES)))"

text \<open>
  \<open>find_shared_timeframe\<close>: the loop over \<open>timeframes[1:]\<close> is a left fold of
  \<open>shared_step\<close>, started at the normalized times of \<open>timeframes[0]\<close>, which raises
  \<open>IndexError\<close> on an empty store.
\<close>

definition shared_step ::
  "('tf \<Rightarrow> datetime \<times> datetime) \<Rightarrow> datetime \<times> datetime \<Rightarrow> 'tf \<Rightarrow> datetime \<times> datetime" where
  "shared_step get_norm_times acc timeframe =
     (let (latest_start_time, earliest_end_time) = acc;
          (norm_start, norm_end) = get_norm_times timeframe
      in (if norm_start > latest_start_time then norm_start else latest_start_time,
          if norm_end < earliest_end_time then norm_end else earliest_end_time))"

definition find_shared_timeframe ::
  "('tf \<Rightarrow> datetime \<times> datetime) \<Rightarrow> 'tf timeframes \<Rightarrow> py_error + (datetime \<times> datetime) option" where
  "find_shared_timeframe get_norm_times TIMEFRAMES =
     (case dict_values TIMEFRAMES of
        [] \<Rightarrow> Inl IndexError
      | t0 # rest \<Rightarrow>
          (let (latest_start_time, earliest_end_time) =
                 foldl (shared_step get_norm_times) (get_norm_times t0) rest
           in if latest_start_time > earliest_end_time then Inr None
              else Inr (Some (latest_start_time, earliest_end_time))))"

definition remove_timeframe :: "string \<Rightarrow> 'tf timeframes \<Rightarrow> message list \<times> bool \<times> 'tf timeframes" where
  "remove_timeframe timeframe_id TIMEFRAMES =
     (if timeframe_id \<notin> set (dict_keys TIMEFRAMES)
      then ([DoesNotExist timeframe_id], False, TIMEFRAMES)
      else ([TimeframeRemoved timeframe_id], True, dict_pop timeframe_id TIMEFRAMES))"

text \<open>\<open>reset\<close>: \<open>response\<close> is what the user types at the confirmation prompt.\<close>

definition reset :: "string \<Rightarrow> 'tf timeframes \<Rightarrow> message list \<times> bool \<times> 'tf timeframes" where
  "reset response TIMEFRAMES =
     (if lower response \<in> set [''y'', ''yes'']
      then ([ResetPrompt, RemovedAll], True, [])
      else ([ResetPrompt], False, TIMEFRAMES))"

text \<open>The branch of \<open>main\<close> for the actions \<open>find\<close>, \<open>run\<close> and \<open>sync\<close>.\<close>

definition main_find :: "('tf \<Rightarrow> datetime \<times> datetime) \<Rightarrow> 'tf timeframes \<Rightarrow> py_error + message list" where
  "main_find get_norm_times TIMEFRAMES =
     (if length TIMEFRAMES \<le> 1 then Inr [TooFewTimeframes (length TIMEFRAMES)]
      else (case find_shared_timeframe get_norm_times TIMEFRAMES of
              Inl e \<Rightarrow> Inl e
            | Inr None \<Rightarrow> Inr [NoSharedTimeframe]
            | Inr (Some (start_datetime, end_datetime)) \<Rightarrow>
                Inr [SharedTimeframe start_datetime end_datetime]))"

section \<open>The legacy program: \<open>common_time.py\<close>\<close>

text \<open>
  The globals of the module: \<open>startTimes\<close> and \<open>endTimes\<close> hold the converted start and
  end of each limit, \<open>limit_count\<close> counts the limits.
\<close>

record limits =
  startTimes :: "datetime list"
  endTimes :: "datetime list"
  limit_count :: nat

text \<open>
  \<open>convertToUTC\<close> asks a remote service to convert a local date-time of a location to UTC.
  The service is a parameter: \<open>service location t\<close> is the converted instant, or \<open>None\<close>
  when the request or the decoding of its answer fails, which the source does not catch.
  The encoding of the instant as a Unix timestamp and the decoding of the answer are on
  the service's side of this parameter.
\<close>

definition convertToUTC :: "(string \<Rightarrow> datetime \<Rightarrow> datetime option) \<Rightarrow> string \<Rightarrow> datetime \<Rightarrow> py_error + datetime" where
  "convertToUTC service BASE_LOCATION BASE_DATETIME =
     (case service BASE_LOCATION BASE_DATETIME of
        None \<Rightarrow> Inl RequestError
      | Some UTC_timestamp \<Rightarrow> Inr UTC_timestamp)"

text \<open>
  Modelled from the spec: the conversion service itself is no code of the repository; the
  spec replaces it by pure offset arithmetic, a fixed signed offset in minutes for each
  location, subtracted from the local instant.
\<close>

definition offset_service :: "(string \<Rightarrow> int) \<Rightarrow> string \<Rightarrow> datetime \<Rightarrow> datetime option" where
  "offset_service utc_offset location t = Some (t - utc_offset location)"

text \<open>
  \<open>datetime.strptime\<close> of today's date with a time stamp \<open>HHMM\<close>: \<open>date_today\<close> is the
  instant of today's midnight; an hour above 23 or a minute above 59 raises \<open>ValueError\<close>.
\<close>

definition strptime_today :: "datetime \<Rightarrow> nat \<times> nat \<Rightarrow> py_error + datetime" where
  "strptime_today date_today hhmm =
     (let (hh, mm) = hhmm
      in if hh \<le> 23 \<and> mm \<le> 59 then Inr (date_today + 60 * int hh + int mm) else Inl ValueError)"

text \<open>
  \<open>add\<close>, after the regular expressions have taken the location and the two time stamps
  out of the command. \<open>timedelta(days=1)\<close> is 1440 minutes.
\<close>

definition add ::
  "(string \<Rightarrow> datetime \<Rightarrow> datetime option) \<Rightarrow> datetime \<Rightarrow> string \<Rightarrow> nat \<times> nat \<Rightarrow> nat \<times> nat
     \<Rightarrow> limits \<Rightarrow> py_error + limits" where
  "add service date_today location time_stamp0 time_stamp1 g =
     (case strptime_today date_today time_stamp0 of
        Inl e \<Rightarrow> Inl e
      | Inr start_datetime_object \<Rightarrow>
     (case strptime_today date_today time_stamp1 of
        Inl e \<Rightarrow> Inl e
      | Inr end_datetime_object \<Rightarrow>
     (case convertToUTC service location start_datetime_object of
        Inl e \<Rightarrow> Inl e
      | Inr utc_start \<Rightarrow>
     (case (if start_datetime_object < end_datetime_object
            then convertToUTC service location end_datetime_object
            else convertToUTC service location (end_datetime_object + 1440)) of
        Inl e \<Rightarrow> Inl e
      | Inr utc_end \<Rightarrow>
          Inr (g\<lparr>startTimes := startTimes g @ [utc_start],
                 endTimes := endTimes g @ [utc_end],
                 limit_count := limit_count g + 1\<rparr>)))))"

definition clear :: "limits \<Rightarrow> limits" where
  "clear g = g\<lparr>startTimes := [], endTimes := [], limit_count := 0\<rparr>"

text \<open>
  \<open>run\<close>. Its two \<open>for\<close> loops are left folds over \<open>startTimes\<close> and \<open>endTimes\<close>, started
  at the first element of each list (\<open>IndexError\<close> on an empty list). When the branch
  \<open>op_startTime < op_endTime\<close> is taken, the source reads \<open>delta.hours\<close> of a \<open>timedelta\<close>,
  which has no such attribute, and raises \<open>AttributeError\<close>; otherwise it prints
  "No common time frame for the set limits.", which is the result \<open>Inr ()\<close>.
\<close>

definition run_start_loop :: "datetime \<Rightarrow> datetime list \<Rightarrow> datetime" where
  "run_start_loop op_startTime items =
     foldl (\<lambda>op_startTime item. if op_startTime > item then item else op_startTime) op_startTime items"

definition run_end_loop :: "datetime \<Rightarrow> datetime list \<Rightarrow> datetime" where
  "run_end_loop op_endTime items =
     foldl (\<lambda>op_endTime item. if op_endTime < item then item else op_endTime) op_endTime items"

definition run :: "limits \<Rightarrow> py_error + unit" where
  "run g =
     (case startTimes g of
        [] \<Rightarrow> Inl IndexError
      | s0 # _ \<Rightarrow>
     (case endTimes g of
        [] \<Rightarrow> Inl IndexError
      | e0 # _ \<Rightarrow>
          (let op_startTime = run_start_loop s0 (startTimes g);
               op_endTime = run_end_loop e0 (endTimes g)
           in if op_startTime < op_endTime then Inl AttributeError else Inr ())))"

text \<open>
  \<open>vis\<close>. Each of its three \<open>while\<close> loops appends one mark to \<open>output\<close>, moves
  \<open>reference_datetime\<close> on by 30 minutes and counts in \<open>increment_counter\<close>. The first two
  loops run while the reference is before a bound (\<open>startTimes[n]\<close>, then \<open>endTimes[n]\<close>),
  the third while the counter is below 49. The loop state is the triple of reference,
  output and counter.
\<close>

type_synonym vis_state = "datetime \<times> string \<times> nat"

function while_before :: "char \<Rightarrow> datetime \<Rightarrow> vis_state \<Rightarrow> vis_state" where
  "while_before mark bound (reference_datetime, output, increment_counter) =
     (if reference_datetime < bound
      then while_before mark bound (reference_datetime + 30, output @ [mark], increment_counter + 1)
      else (reference_datetime, output, increment_counter))"
  by pat_completeness auto
termination
  by (relation "measure (\<lambda>(mark, bound, reference_datetime, output, increment_counter).
        nat (bound - reference_datetime))") auto

function while_counter :: "vis_state \<Rightarrow> vis_state" where
  "while_counter (reference_datetime, output, increment_counter) =
     (if increment_counter < 49
      then while_counter (reference_datetime + 30, output @ [CHR ''|''], increment_counter + 1)
      else (reference_datetime, output, increment_counter))"
  by pat_completeness auto
termination
  by (relation "measure (\<lambda>(reference_datetime, output, increment_counter).
        49 - increment_counter)") auto

declare while_before.simps [simp del]
declare while_counter.simps [simp del]

text \<open>
  The body of the \<open>for\<close> loop for one index \<open>n\<close>, from the counter so far to the printed
  row and the counter afterwards. \<open>n\<close> comes from \<open>range(len(startTimes))\<close>, so that
  \<open>startTimes[0]\<close> and \<open>startTimes[n]\<close> exist; \<open>endTimes[n]\<close> raises \<open>IndexError\<close> when
  \<open>endTimes\<close> is shorter.
\<close>

definition vis_row :: "limits \<Rightarrow> nat \<Rightarrow> nat \<Rightarrow> py_error + (string \<times> nat)" where
  "vis_row g n increment_counter =
     (let s1 = while_before (CHR ''|'') (startTimes g ! n) (startTimes g ! 0, [], increment_counter)
      in if n < length (endTimes g)
         then (let s2 = while_before (CHR '' '') (endTimes g ! n) s1;
                   (reference_datetime, output, counter) = while_counter s2
               in Inr (output, counter))
         else Inl IndexError)"

fun vis_rows :: "limits \<Rightarrow> nat list \<Rightarrow> nat \<Rightarrow> py_error + string list" where
  "vis_rows g [] increment_counter = Inr []"
| "vis_rows g (n # ns) increment_counter =
     (case vis_row g n increment_counter of
        Inl e \<Rightarrow> Inl e
      | Inr (output, counter) \<Rightarrow>
          (case vis_rows g ns counter of
             Inl e \<Rightarrow> Inl e
           | Inr rows \<Rightarrow> Inr (output # rows)))"

definition vis :: "limits \<Rightarrow> py_error + string list" where
  "vis g = vis_rows g [0 ..< length (startTimes g)] 0"

text \<open>
  The mark of the bucket \<open>i\<close> of a window \<open>(start, end)\<close> seen from an origin: the bucket
  begins \<open>i\<close> half hours after the origin and is inside (a blank) when that instant lies
  in the window from its start (inclusive) to its end (exclusive), outside (a bar)
  otherwise.
\<close>

definition window_mark :: "datetime \<Rightarrow> datetime \<times> datetime \<Rightarrow> nat \<Rightarrow> char" where
  "window_mark origin w i =
     (if fst w \<le> origin + 30 * int i \<and> origin + 30 * int i < snd w then CHR '' '' else CHR ''|'')"

text \<open>
  The rendering as the specification words it, for comparison with \<open>vis\<close>: the origin is
  the least start of all timeframes, and each row holds the marks of 48 buckets.
\<close>

definition spec_row :: "datetime \<Rightarrow> datetime \<times> datetime \<Rightarrow> string" where
  "spec_row origin w = map (window_mark origin w) [0 ..< 48]"

definition spec_vis :: "limits \<Rightarrow> string list" where
  "spec_vis g = map (spec_row (Min (set (startTimes g)))) (zip (startTimes g) (endTimes g))"

section \<open>Concrete instances for evaluation\<close>

text \<open>
  An instance of the two parameters of TimeSync, used where a statement is evaluated on
  concrete stores: a timeframe object is the pair of its normalized times, the constructor
  stores the two instants it is given, and \<open>get_norm_times\<close> returns the pair.
\<close>

definition pair_TimeFrame :: "string \<Rightarrow> datetime \<Rightarrow> datetime \<Rightarrow> py_error + (datetime \<times> datetime)" where
  "pair_TimeFrame utc_offset start_time end_time = Inr (start_time, end_time)"

definition pair_norm_times :: "datetime \<times> datetime \<Rightarrow> datetime \<times> datetime" where
  "pair_norm_times timeframe = timeframe"

text \<open>
  Two stores: in \<open>overlapping_store\<close> the windows 09:00--17:00 and 10:00--18:00 share
  10:00--17:00; in \<open>touching_store\<close> the window 00:00--01:00 ends at the instant at which
  01:00--02:00 starts; in \<open>disjoint_store\<close> the windows 00:00--04:00 and 05:00--09:00 do
  not meet.
\<close>

definition overlapping_store :: "(datetime \<times> datetime) timeframes" where
  "overlapping_store = [(''A'', (540, 1020)), (''B'', (600, 1080))]"

definition touching_store :: "(datetime \<times> datetime) timeframes" where
  "touching_store = [(''A'', (0, 60)), (''B'', (60, 120))]"

definition disjoint_store :: "(datetime \<times> datetime) timeframes" where
  "disjoint_store = [(''D'', (0, 240)), (''E'', (300, 540))]"

text \<open>
  Legacy limits: 10:00--17:00 stored first, then 09:00--18:00.
\<close>

definition two_limits :: limits where
  "two_limits = \<lparr>startTimes = [600, 540], endTimes = [1020, 1080], limit_count = 2\<rparr>"

section \<open>Properties of the dictionary operations\<close>

lemma dict_keys_dict_set:
  "set (dict_keys (dict_set k v d)) = insert k (set (dict_keys d))"
  by (induction d) (auto simp: dict_keys_def)

lemma distinct_dict_set:
  "distinct (dict_keys d) \<Longrightarrow> distinct (dict_keys (dict_set k v d))"
proof (induction d)
  case Nil
  then show ?case by (simp add: dict_keys_def)
next
  case (Cons p d)
  have sub: "fst ` set (dict_set k v d) = insert k (fst ` set d)"
    using dict_keys_dict_set [of k v d] by (simp add: dict_keys_def)
  from Cons show ?case
    by (auto simp: dict_keys_def sub)
qed

lemma dict_keys_dict_pop_subset:
  "set (dict_keys (dict_pop k d)) \<subseteq> set (dict_keys d)"
  by (induction d) (auto simp: dict_keys_def)

lemma distinct_dict_pop:
  "distinct (dict_keys d) \<Longrightarrow> distinct (dict_keys (dict_pop k d))"
proof (induction d)
  case Nil
  then show ?case by (simp add: dict_keys_def)
next
  case (Cons p d)
  have "fst ` set (dict_pop k d) \<subseteq> fst ` set d"
    using dict_keys_dict_pop_subset [of k d] by (simp add: dict_keys_def)
  with Cons show ?case
    by (auto simp: dict_keys_def)
qed

lemma dict_pop_removes_key:
  "distinct (dict_keys d) \<Longrightarrow> k \<notin> set (dict_keys (dict_pop k d))"
proof (induction d)
  case Nil
  then show ?case by (simp add: dict_keys_def)
next
  case (Cons p d)
  then show ?case
    by (auto simp: dict_keys_def)
qed

lemma length_dict_pop:
  "k \<in> set (dict_keys d) \<Longrightarrow> Suc (length (dict_pop k d)) = length d"
  by (induction d) (auto simp: dict_keys_def)

section \<open>The reduction of \<open>find_shared_timeframe\<close>\<close>

lemma shared_step_max_min:
  "shared_step g (a, b) t = (max a (fst (g t)), min b (snd (g t)))"
  by (cases "g t") (auto simp: shared_step_def max_def min_def)

lemma foldl_shared_step:
  "foldl (shared_step g) (a, b) ts = (fold max (map (fst \<circ> g) ts) a, fold min (map (snd \<circ> g) ts) b)"
proof (induction ts arbitrary: a b)
  case Nil
  then show ?case by simp
next
  case (Cons t ts)
  show ?case
    by (simp add: shared_step_max_min Cons.IH max.commute min.commute)
qed

lemma foldl_shared_step_Max_Min:
  "foldl (shared_step g) (g t0) ts =
     (Max (set (map (fst \<circ> g) (t0 # ts))), Min (set (map (snd \<circ> g) (t0 # ts))))"
proof -
  obtain a b where g: "g t0 = (a, b)" by (cases "g t0")
  show ?thesis
    by (simp only: g foldl_shared_step list.map comp_apply fst_conv snd_conv
          Max.set_eq_fold Min.set_eq_fold)
qed

lemma find_shared_timeframe_cases:
  assumes "TIMEFRAMES \<noteq> []"
  shows "find_shared_timeframe g TIMEFRAMES =
     (if Max (set (map (fst \<circ> g) (dict_values TIMEFRAMES))) > Min (set (map (snd \<circ> g) (dict_values TIMEFRAMES)))
      then Inr None
      else Inr (Some (Max (set (map (fst \<circ> g) (dict_values TIMEFRAMES))),
                      Min (set (map (snd \<circ> g) (dict_values TIMEFRAMES))))))"
proof -
  from assms obtain t0 ts where v: "dict_values TIMEFRAMES = t0 # ts"
    by (cases TIMEFRAMES) (auto simp: dict_values_def)
  show ?thesis
    unfolding find_shared_timeframe_def v
    by (simp only: list.case foldl_shared_step_Max_Min Let_def prod.case)
qed

text \<open>
  Claim C1. For a store of at least two timeframes, the loop of \<open>find_shared_timeframe\<close>
  ends with the greatest normalized start as \<open>latest_start_time\<close> and the least
  normalized end as \<open>earliest_end_time\<close>, and when the former is before the latter the
  function returns the pair of the two.
\<close>

theorem find_shared_timeframe_latest_start_earliest_end:
  assumes "2 \<le> length TIMEFRAMES"
  shows "foldl (shared_step get_norm_times) (get_norm_times (hd (dict_values TIMEFRAMES)))
           (tl (dict_values TIMEFRAMES)) =
         (Max (set (map (fst \<circ> get_norm_times) (dict_values TIMEFRAMES))),
          Min (set (map (snd \<circ> get_norm_times) (dict_values TIMEFRAMES))))
       \<and> (Max (set (map (fst \<circ> get_norm_times) (dict_values TIMEFRAMES)))
            < Min (set (map (snd \<circ> get_norm_times) (dict_values TIMEFRAMES)))
          \<longrightarrow> find_shared_timeframe get_norm_times TIMEFRAMES =
              Inr (Some (Max (set (map (fst \<circ> get_norm_times) (dict_values TIMEFRAMES))),
                         Min (set (map (snd \<circ> get_norm_times) (dict_values TIMEFRAMES))))))"
proof -
  from assms have ne: "TIMEFRAMES \<noteq> []" by auto
  then obtain t0 ts where v: "dict_values TIMEFRAMES = t0 # ts"
    by (cases TIMEFRAMES) (auto simp: dict_values_def)
  have loop: "foldl (shared_step get_norm_times) (get_norm_times (hd (dict_values TIMEFRAMES)))
           (tl (dict_values TIMEFRAMES)) =
         (Max (set (map (fst \<circ> get_norm_times) (dict_values TIMEFRAMES))),
          Min (set (map (snd \<circ> get_norm_times) (dict_values TIMEFRAMES))))"
    unfolding v by (simp only: list.sel foldl_shared_step_Max_Min)
  have res: "Max (set (map (fst \<circ> get_norm_times) (dict_values TIMEFRAMES)))
            < Min (set (map (snd \<circ> get_norm_times) (dict_values TIMEFRAMES)))
          \<longrightarrow> find_shared_timeframe get_norm_times TIMEFRAMES =
              Inr (Some (Max (set (map (fst \<circ> get_norm_times) (dict_values TIMEFRAMES))),
                         Min (set (map (snd \<circ> get_norm_times) (dict_values TIMEFRAMES)))))"
    by (simp add: find_shared_timeframe_cases [OF ne])
  from loop res show ?thesis by (rule conjI)
qed

text \<open>The statement at the store of 09:00--17:00 and 10:00--18:00.\<close>

theorem find_shared_timeframe_latest_start_earliest_end_witness:
  "2 \<le> length overlapping_store
   \<and> foldl (shared_step pair_norm_times) (pair_norm_times (hd (dict_values overlapping_store)))
       (tl (dict_values overlapping_store)) = (600, 1020)
   \<and> find_shared_timeframe pair_norm_times overlapping_store = Inr (Some (600, 1020))"
proof -
  have h: "2 \<le> length overlapping_store" by (simp add: overlapping_store_def)
  have mx: "Max (set (map (fst \<circ> pair_norm_times) (dict_values overlapping_store))) = 600"
    by (simp add: overlapping_store_def dict_values_def pair_norm_times_def)
  have mn: "Min (set (map (snd \<circ> pair_norm_times) (dict_values overlapping_store))) = 1020"
    by (simp add: overlapping_store_def dict_values_def pair_norm_times_def)
  note t = find_shared_timeframe_latest_start_earliest_end [OF h, of pair_norm_times, unfolded mx mn]
  from h t show ?thesis by simp
qed

text \<open>
  Claim C2, as stated, at the store whose latest start and earliest end are both 01:00:
  the result is the zero-length pair, not \<open>None\<close>.
\<close>

theorem find_shared_timeframe_touching_counterexample:
  "2 \<le> length touching_store
   \<and> Max (set (map (fst \<circ> pair_norm_times) (dict_values touching_store)))
       \<ge> Min (set (map (snd \<circ> pair_norm_times) (dict_values touching_store)))
   \<and> find_shared_timeframe pair_norm_times touching_store = Inr (Some (60, 60))
   \<and> find_shared_timeframe pair_norm_times touching_store \<noteq> Inr None"
  by (simp add: touching_store_def dict_values_def pair_norm_times_def
        find_shared_timeframe_def shared_step_def)

text \<open>
  Claim C2, amended. For a store of at least two timeframes, \<open>find_shared_timeframe\<close>
  returns \<open>None\<close> when the latest start is strictly after the earliest end; when the two
  are equal it returns the zero-length pair of that instant.
\<close>

theorem find_shared_timeframe_none_when_start_after_end:
  assumes "2 \<le> length TIMEFRAMES"
  shows "(Max (set (map (fst \<circ> get_norm_times) (dict_values TIMEFRAMES)))
            > Min (set (map (snd \<circ> get_norm_times) (dict_values TIMEFRAMES)))
          \<longrightarrow> find_shared_timeframe get_norm_times TIMEFRAMES = Inr None)
       \<and> (Max (set (map (fst \<circ> get_norm_times) (dict_values TIMEFRAMES)))
            = Min (set (map (snd \<circ> get_norm_times) (dict_values TIMEFRAMES)))
          \<longrightarrow> find_shared_timeframe get_norm_times TIMEFRAMES =
              Inr (Some (Max (set (map (fst \<circ> get_norm_times) (dict_values TIMEFRAMES))),
                         Max (set (map (fst \<circ> get_norm_times) (dict_values TIMEFRAMES))))))"
proof -
  from assms have ne: "TIMEFRAMES \<noteq> []" by auto
  show ?thesis
    by (simp add: find_shared_timeframe_cases [OF ne])
qed

text \<open>
  The amended statement at a store of two disjoint windows, 00:00--04:00 and
  05:00--09:00, and at the touching store.
\<close>

theorem find_shared_timeframe_none_when_start_after_end_witness:
  "2 \<le> length disjoint_store
   \<and> find_shared_timeframe pair_norm_times disjoint_store = Inr None
   \<and> 2 \<le> length touching_store
   \<and> find_shared_timeframe pair_norm_times touching_store = Inr (Some (60, 60))"
proof -
  have h1: "2 \<le> length disjoint_store" by (simp add: disjoint_store_def)
  have h2: "2 \<le> length touching_store" by (simp add: touching_store_def)
  have m1: "Max (set (map (fst \<circ> pair_norm_times) (dict_values disjoint_store))) = 300"
    "Min (set (map (snd \<circ> pair_norm_times) (dict_values disjoint_store))) = 240"
    by (simp_all add: disjoint_store_def dict_values_def pair_norm_times_def)
  have m2: "Max (set (map (fst \<circ> pair_norm_times) (dict_values touching_store))) = 60"
    "Min (set (map (snd \<circ> pair_norm_times) (dict_values touching_store))) = 60"
    by (simp_all add: touching_store_def dict_values_def pair_norm_times_def)
  note t1 = find_shared_timeframe_none_when_start_after_end [OF h1, of pair_norm_times, unfolded m1]
  note t2 = find_shared_timeframe_none_when_start_after_end [OF h2, of pair_norm_times, unfolded m2]
  from h1 h2 t1 t2 show ?thesis by simp
qed

text \<open>
  Claim C4. With no or one stored timeframe the \<open>find\<close> action of \<open>main\<close> reports that
  too few timeframes were provided and does not call \<open>find_shared_timeframe\<close>: its whole
  output is that report, neither an interval nor the report of no shared timeframe.
\<close>

theorem main_find_too_few_timeframes:
  assumes "length TIMEFRAMES \<le> 1"
  shows "main_find get_norm_times TIMEFRAMES = Inr [TooFewTimeframes (length TIMEFRAMES)]
       \<and> main_find get_norm_times TIMEFRAMES \<noteq> Inr [NoSharedTimeframe]
       \<and> main_find get_norm_times TIMEFRAMES \<noteq> Inr [SharedTimeframe s e]"
  using assms by (simp add: main_find_def)

theorem main_find_too_few_timeframes_witness:
  "length [(''A'', (0::int, 60::int))] \<le> 1
   \<and> main_find pair_norm_times [(''A'', (0, 60))] = Inr [TooFewTimeframes 1]
   \<and> length ([] :: (datetime \<times> datetime) timeframes) \<le> 1
   \<and> main_find pair_norm_times [] = Inr [TooFewTimeframes 0]"
proof -
  have h1: "length [(''A'', (0::int, 60::int))] \<le> 1" by simp
  have h0: "length ([] :: (datetime \<times> datetime) timeframes) \<le> 1" by simp
  from h1 h0 main_find_too_few_timeframes [OF h1, of pair_norm_times]
    main_find_too_few_timeframes [OF h0, of pair_norm_times]
  show ?thesis by simp
qed

text \<open>
  Without the guard of \<open>main\<close>, \<open>find_shared_timeframe\<close> itself raises \<open>IndexError\<close> on an
  empty store and returns the bounds of the only timeframe of a store of one.
\<close>

lemma find_shared_timeframe_unguarded:
  "find_shared_timeframe get_norm_times [] = Inl IndexError"
  "get_norm_times t = (s, e) \<Longrightarrow> s \<le> e \<Longrightarrow>
     find_shared_timeframe get_norm_times [(k, t)] = Inr (Some (s, e))"
  by (simp_all add: find_shared_timeframe_def dict_values_def)

text \<open>
  Claim C5, as stated, at the response \<open>n\<close> on a store of two timeframes: \<open>reset\<close> returns
  \<open>False\<close> and the store is as before, not empty.
\<close>

theorem reset_declined_counterexample:
  "reset ''n'' touching_store = ([ResetPrompt], False, touching_store)
   \<and> touching_store \<noteq> []"
  by (simp add: reset_def lower_def lower_char_def touching_store_def)

text \<open>
  Claim C5, amended. \<open>reset\<close> empties the store and returns \<open>True\<close> when the lowered
  response to its prompt is \<open>y\<close> or \<open>yes\<close>; on any other response it returns \<open>False\<close> and
  leaves the store as it is. The legacy \<open>clear\<close> empties both lists and the count
  whatever the state.
\<close>

theorem reset_clears_when_confirmed:
  "(lower response \<in> {''y'', ''yes''}
      \<longrightarrow> reset response TIMEFRAMES = ([ResetPrompt, RemovedAll], True, []))
   \<and> (lower response \<notin> {''y'', ''yes''}
      \<longrightarrow> reset response TIMEFRAMES = ([ResetPrompt], False, TIMEFRAMES))
   \<and> startTimes (clear g) = [] \<and> endTimes (clear g) = [] \<and> limit_count (clear g) = 0"
  by (simp add: reset_def clear_def)

theorem reset_clears_when_confirmed_witness:
  "lower ''Yes'' \<in> {''y'', ''yes''}
   \<and> reset ''Yes'' touching_store = ([ResetPrompt, RemovedAll], True, [])
   \<and> lower ''no'' \<notin> {''y'', ''yes''}
   \<and> reset ''no'' touching_store = ([ResetPrompt], False, touching_store)
   \<and> startTimes (clear two_limits) = []"
proof -
  have y: "lower ''Yes'' \<in> {''y'', ''yes''}" by (simp add: lower_def lower_char_def)
  have n: "lower ''no'' \<notin> {''y'', ''yes''}" by (simp add: lower_def lower_char_def)
  from y n reset_clears_when_confirmed [of "''Yes''" touching_store two_limits]
    reset_clears_when_confirmed [of "''no''" touching_store two_limits]
  show ?thesis by simp
qed

section \<open>The mutations of the store\<close>

text \<open>Every operation keeps the keys of the store unique, as the keys of a \<open>dict\<close> are.\<close>

lemma add_timeframe_distinct:
  assumes "distinct (dict_keys TIMEFRAMES)"
    and "add_timeframe TimeFrame timeframe_id utc_offset start_time end_time response TIMEFRAMES
           = Inr (out, TIMEFRAMES')"
  shows "distinct (dict_keys TIMEFRAMES')"
  using assms
  by (auto simp: add_timeframe_def Let_def distinct_dict_set split: if_splits sum.splits)

lemma remove_timeframe_distinct:
  assumes "distinct (dict_keys TIMEFRAMES)"
  shows "distinct (dict_keys (snd (snd (remove_timeframe timeframe_id TIMEFRAMES))))"
  using assms by (simp add: remove_timeframe_def distinct_dict_pop)

lemma reset_distinct:
  assumes "distinct (dict_keys TIMEFRAMES)"
  shows "distinct (dict_keys (snd (snd (reset response TIMEFRAMES))))"
  using assms by (simp add: reset_def dict_keys_def)

lemma dict_set_present_keys:
  "k \<in> set (dict_keys d) \<Longrightarrow> dict_keys (dict_set k v d) = dict_keys d"
  by (induction d) (auto simp: dict_keys_def)

lemma dict_set_lookup:
  "map_of (dict_set k v d) = (map_of d)(k \<mapsto> v)"
  by (induction d) (auto simp: fun_eq_iff)

text \<open>
  Claim C6. When the id is already in the store, \<open>add_timeframe\<close> reports that a timeframe
  with this id exists whenever it returns; unless the response to its overwrite prompt,
  lowered, is \<open>y\<close> or \<open>yes\<close>, it aborts and the store, and so the timeframe under the id,
  is as before; with such a response the timeframe under the id is replaced in place by
  the new one.
\<close>

theorem add_timeframe_duplicate_id:
  assumes "tid \<in> set (dict_keys TIMEFRAMES)"
  shows "(lower response \<notin> {''y'', ''yes''} \<longrightarrow>
            add_timeframe TimeFrame (Some tid) utc_offset start_time end_time response TIMEFRAMES
              = Inr ([AlreadyExists tid, ActionAborted], TIMEFRAMES))
       \<and> (\<forall>out TIMEFRAMES'.
            add_timeframe TimeFrame (Some tid) utc_offset start_time end_time response TIMEFRAMES
              = Inr (out, TIMEFRAMES') \<longrightarrow> AlreadyExists tid \<in> set out)
       \<and> (\<forall>new_timeframe.
            lower response \<in> {''y'', ''yes''}
            \<and> TimeFrame utc_offset start_time end_time = Inr new_timeframe \<longrightarrow>
            add_timeframe TimeFrame (Some tid) utc_offset start_time end_time response TIMEFRAMES
              = Inr ([AlreadyExists tid, TimeframeAdded], dict_set tid new_timeframe TIMEFRAMES))"
  using assms
  by (auto simp: add_timeframe_def Let_def split: sum.splits)

theorem add_timeframe_duplicate_id_witness:
  "''A'' \<in> set (dict_keys touching_store)
   \<and> lower ''N'' \<notin> {''y'', ''yes''}
   \<and> add_timeframe pair_TimeFrame (Some ''A'') ''+00:00'' 30 90 ''N'' touching_store
       = Inr ([AlreadyExists ''A'', ActionAborted], touching_store)
   \<and> lower ''Y'' \<in> {''y'', ''yes''}
   \<and> add_timeframe pair_TimeFrame (Some ''A'') ''+00:00'' 30 90 ''Y'' touching_store
       = Inr ([AlreadyExists ''A'', TimeframeAdded], [(''A'', (30, 90)), (''B'', (60, 120))])"
proof -
  have h: "''A'' \<in> set (dict_keys touching_store)"
    by (simp add: touching_store_def dict_keys_def)
  have n: "lower ''N'' \<notin> {''y'', ''yes''}" by (simp add: lower_def lower_char_def)
  have y: "lower ''Y'' \<in> {''y'', ''yes''}" by (simp add: lower_def lower_char_def)
  have c: "pair_TimeFrame ''+00:00'' 30 90 = Inr (30, 90)" by (simp add: pair_TimeFrame_def)
  have s: "dict_set ''A'' (30, 90) touching_store = [(''A'', (30, 90)), (''B'', (60, 120))]"
    by (simp add: touching_store_def)
  from h n y c s
    add_timeframe_duplicate_id [OF h, of "''N''" pair_TimeFrame "''+00:00''" 30 90]
    add_timeframe_duplicate_id [OF h, of "''Y''" pair_TimeFrame "''+00:00''" 30 90]
  show ?thesis by simp
qed

text \<open>
  Claim C7. For an id that is not in the store, \<open>remove_timeframe\<close> returns \<open>False\<close>,
  reports that no timeframe has this id, and returns the store as it was, so that its
  size and its entries are what they were. For an id that is in the store it returns
  \<open>True\<close>, and removing the same id again from the resulting store returns \<open>False\<close> with
  the same report.
\<close>

theorem remove_timeframe_absent_id:
  "(timeframe_id \<notin> set (dict_keys TIMEFRAMES) \<longrightarrow>
      remove_timeframe timeframe_id TIMEFRAMES = ([DoesNotExist timeframe_id], False, TIMEFRAMES)
      \<and> length (snd (snd (remove_timeframe timeframe_id TIMEFRAMES))) = length TIMEFRAMES)
   \<and> (distinct (dict_keys TIMEFRAMES) \<and> timeframe_id \<in> set (dict_keys TIMEFRAMES) \<longrightarrow>
      fst (snd (remove_timeframe timeframe_id TIMEFRAMES)) = True
      \<and> remove_timeframe timeframe_id (snd (snd (remove_timeframe timeframe_id TIMEFRAMES)))
          = ([DoesNotExist timeframe_id], False,
             snd (snd (remove_timeframe timeframe_id TIMEFRAMES))))"
  by (simp add: remove_timeframe_def dict_pop_removes_key)

theorem remove_timeframe_absent_id_witness:
  "''C'' \<notin> set (dict_keys touching_store)
   \<and> remove_timeframe ''C'' touching_store = ([DoesNotExist ''C''], False, touching_store)
   \<and> distinct (dict_keys touching_store) \<and> ''A'' \<in> set (dict_keys touching_store)
   \<and> remove_timeframe ''A'' touching_store = ([TimeframeRemoved ''A''], True, [(''B'', (60, 120))])
   \<and> remove_timeframe ''A'' [(''B'', (60 :: datetime, 120 :: datetime))]
       = ([DoesNotExist ''A''], False, [(''B'', (60, 120))])"
proof -
  have a: "''C'' \<notin> set (dict_keys touching_store)"
    by (simp add: touching_store_def dict_keys_def)
  have d: "distinct (dict_keys touching_store)" "''A'' \<in> set (dict_keys touching_store)"
    by (simp_all add: touching_store_def dict_keys_def)
  have r: "remove_timeframe ''A'' touching_store = ([TimeframeRemoved ''A''], True, [(''B'', (60, 120))])"
    by (simp add: remove_timeframe_def touching_store_def dict_keys_def)
  from a d r remove_timeframe_absent_id [of "''C''" touching_store]
    remove_timeframe_absent_id [of "''A''" touching_store]
  show ?thesis by simp
qed

text \<open>
  Claim C10. Called with no id, \<open>add_timeframe\<close> behaves as if called with the id made of
  \<open>Timeframe\<close>, a blank and the decimal of the size of the store less one; on the empty
  store this id is \<open>Timeframe -1\<close>. After three such additions to the empty store the
  ids are \<open>Timeframe -1\<close>, \<open>Timeframe 0\<close> and \<open>Timeframe 1\<close>; once the first is removed,
  the default id of the store of two is \<open>Timeframe 1\<close>, an id of the store, and the next
  addition without an id meets the check for an existing id.
\<close>

theorem add_timeframe_default_id:
  assumes "TimeFrame utc_offset start_time end_time = Inr t"
  shows "add_timeframe TimeFrame None utc_offset start_time end_time response TIMEFRAMES
           = add_timeframe TimeFrame
               (Some (''Timeframe '' @ str_int (int (length TIMEFRAMES) - 1)))
               utc_offset start_time end_time response TIMEFRAMES
       \<and> add_timeframe TimeFrame None utc_offset start_time end_time response []
           = Inr ([TimeframeAdded], [(''Timeframe -1'', t)])
       \<and> add_timeframe TimeFrame None utc_offset start_time end_time response
             [(''Timeframe -1'', t)]
           = Inr ([TimeframeAdded], [(''Timeframe -1'', t), (''Timeframe 0'', t)])
       \<and> add_timeframe TimeFrame None utc_offset start_time end_time response
             [(''Timeframe -1'', t), (''Timeframe 0'', t)]
           = Inr ([TimeframeAdded],
                  [(''Timeframe -1'', t), (''Timeframe 0'', t), (''Timeframe 1'', t)])
       \<and> remove_timeframe ''Timeframe -1''
             [(''Timeframe -1'', t), (''Timeframe 0'', t), (''Timeframe 1'', t)]
           = ([TimeframeRemoved ''Timeframe -1''], True,
              [(''Timeframe 0'', t), (''Timeframe 1'', t)])
       \<and> ''Timeframe '' @ str_int (int (length [(''Timeframe 0'', t), (''Timeframe 1'', t)]) - 1)
           \<in> set (dict_keys [(''Timeframe 0'', t), (''Timeframe 1'', t)])
       \<and> add_timeframe TimeFrame None utc_offset start_time end_time ''n''
             [(''Timeframe 0'', t), (''Timeframe 1'', t)]
           = Inr ([AlreadyExists ''Timeframe 1'', ActionAborted],
                  [(''Timeframe 0'', t), (''Timeframe 1'', t)])"
proof -
  have m1: "str_int (- 1) = ''-1''" by (simp add: str_int_def str_nat.simps digit_char_def)
  have z: "str_int 0 = ''0''" by (simp add: str_int_def str_nat.simps digit_char_def)
  have p1: "str_int 1 = ''1''" by (simp add: str_int_def str_nat.simps digit_char_def)
  have n: "lower ''n'' \<notin> {''y'', ''yes''}" by (simp add: lower_def lower_char_def)
  have c1: "add_timeframe TimeFrame None utc_offset start_time end_time response TIMEFRAMES
           = add_timeframe TimeFrame
               (Some (''Timeframe '' @ str_int (int (length TIMEFRAMES) - 1)))
               utc_offset start_time end_time response TIMEFRAMES"
    by (simp add: add_timeframe_def)
  have c2: "add_timeframe TimeFrame None utc_offset start_time end_time response []
           = Inr ([TimeframeAdded], [(''Timeframe -1'', t)])"
    by (simp add: add_timeframe_def assms m1 dict_keys_def)
  have c3: "add_timeframe TimeFrame None utc_offset start_time end_time response
             [(''Timeframe -1'', t)]
           = Inr ([TimeframeAdded], [(''Timeframe -1'', t), (''Timeframe 0'', t)])"
    by (simp add: add_timeframe_def assms z dict_keys_def)
  have c4: "add_timeframe TimeFrame None utc_offset start_time end_time response
             [(''Timeframe -1'', t), (''Timeframe 0'', t)]
           = Inr ([TimeframeAdded],
                  [(''Timeframe -1'', t), (''Timeframe 0'', t), (''Timeframe 1'', t)])"
    by (simp add: add_timeframe_def assms p1 dict_keys_def)
  have c5: "remove_timeframe ''Timeframe -1''
             [(''Timeframe -1'', t), (''Timeframe 0'', t), (''Timeframe 1'', t)]
           = ([TimeframeRemoved ''Timeframe -1''], True,
              [(''Timeframe 0'', t), (''Timeframe 1'', t)])"
    by (simp add: remove_timeframe_def dict_keys_def)
  have c6: "''Timeframe '' @ str_int (int (length [(''Timeframe 0'', t), (''Timeframe 1'', t)]) - 1)
           \<in> set (dict_keys [(''Timeframe 0'', t), (''Timeframe 1'', t)])"
    by (simp add: p1 dict_keys_def)
  have c7: "add_timeframe TimeFrame None utc_offset start_time end_time ''n''
             [(''Timeframe 0'', t), (''Timeframe 1'', t)]
           = Inr ([AlreadyExists ''Timeframe 1'', ActionAborted],
                  [(''Timeframe 0'', t), (''Timeframe 1'', t)])"
    using n by (simp add: add_timeframe_def p1 dict_keys_def Let_def)
  from c1 c2 c3 c4 c5 c6 c7 show ?thesis by blast
qed

theorem add_timeframe_default_id_witness:
  "pair_TimeFrame ''+00:00'' 0 60 = Inr (0, 60)
   \<and> add_timeframe pair_TimeFrame None ''+00:00'' 0 60 ''y'' []
       = Inr ([TimeframeAdded], [(''Timeframe -1'', (0, 60))])
   \<and> add_timeframe pair_TimeFrame None ''+00:00'' 0 60 ''n''
         [(''Timeframe 0'', (0, 60)), (''Timeframe 1'', (0, 60))]
       = Inr ([AlreadyExists ''Timeframe 1'', ActionAborted],
              [(''Timeframe 0'', (0, 60)), (''Timeframe 1'', (0, 60))])"
proof -
  have h: "pair_TimeFrame ''+00:00'' 0 60 = Inr (0, 60)" by (simp add: pair_TimeFrame_def)
  from h add_timeframe_default_id
      [where TimeFrame = pair_TimeFrame and utc_offset = "''+00:00''" and start_time = 0
         and end_time = 60 and t = "(0, 60)" and response = "''y''" and TIMEFRAMES = "[]", OF h]
  show ?thesis by blast
qed

section \<open>The legacy \<open>add\<close> under offset arithmetic\<close>

lemma add_offset_service:
  assumes "sh \<le> 23" "sm \<le> 59" "eh \<le> 23" "em \<le> 59"
  shows "add (offset_service utc_offset) date_today location (sh, sm) (eh, em) g =
     Inr (g\<lparr>startTimes := startTimes g
                 @ [date_today + 60 * int sh + int sm - utc_offset location],
            endTimes := endTimes g
                 @ [date_today + 60 * int eh + int em - utc_offset location
                    + (if date_today + 60 * int eh + int em \<le> date_today + 60 * int sh + int sm
                       then 1440 else 0)],
            limit_count := limit_count g + 1\<rparr>)"
  using assms
  by (simp add: add_def strptime_today_def convertToUTC_def offset_service_def)

text \<open>
  Claim C3. For time stamps that parse (hours up to 23, minutes up to 59), with the
  conversion done by offset arithmetic, \<open>add\<close> stores as UTC start the local start less
  the offset and as UTC end the local end of the same date less the offset, with 24 hours
  (1440 minutes) added exactly when the local end is not after the local start. The
  stored start is before the stored end in every case, so that no window that is empty
  or inverted is stored and \<open>add\<close> always returns limits.
\<close>

theorem add_normalizes_to_utc:
  assumes "sh \<le> 23" "sm \<le> 59" "eh \<le> 23" "em \<le> 59"
  shows "add (offset_service utc_offset) date_today location (sh, sm) (eh, em) g =
     Inr (g\<lparr>startTimes := startTimes g
                 @ [date_today + 60 * int sh + int sm - utc_offset location],
            endTimes := endTimes g
                 @ [date_today + 60 * int eh + int em - utc_offset location
                    + (if date_today + 60 * int eh + int em \<le> date_today + 60 * int sh + int sm
                       then 1440 else 0)],
            limit_count := limit_count g + 1\<rparr>)
   \<and> date_today + 60 * int sh + int sm - utc_offset location
       < date_today + 60 * int eh + int em - utc_offset location
         + (if date_today + 60 * int eh + int em \<le> date_today + 60 * int sh + int sm
            then 1440 else 0)"
proof -
  have lt: "date_today + 60 * int sh + int sm - utc_offset location
       < date_today + 60 * int eh + int em - utc_offset location
         + (if date_today + 60 * int eh + int em \<le> date_today + 60 * int sh + int sm
            then 1440 else 0)"
    using assms by (simp split: if_splits)
  from add_offset_service [OF assms] lt show ?thesis by (rule conjI)
qed

text \<open>
  The statement for the limit 22:00--06:00 at the offset +05:30, on the date whose
  midnight is the instant 0: the start is 16:30 and the end 00:30 of the next day, that
  is, the instants 990 and 1470.
\<close>

theorem add_normalizes_to_utc_witness:
  "(22::nat) \<le> 23 \<and> (0::nat) \<le> 59 \<and> (6::nat) \<le> 23
   \<and> add (offset_service (\<lambda>location. 330)) 0 ''IN,DEL'' (22, 0) (6, 0)
         \<lparr>startTimes = [], endTimes = [], limit_count = 0\<rparr>
       = Inr \<lparr>startTimes = [990], endTimes = [1470], limit_count = 1\<rparr>"
proof -
  have h: "(22::nat) \<le> 23" "(0::nat) \<le> 59" "(6::nat) \<le> 23" by simp_all
  from h add_normalizes_to_utc [OF h(1) h(2) h(3) h(2), of "\<lambda>location. 330" 0 "''IN,DEL''"
      "\<lparr>startTimes = [], endTimes = [], limit_count = 0\<rparr>"]
  show ?thesis by simp
qed

text \<open>
  Claim C8. For time stamps that parse, with the conversion done by offset arithmetic,
  the UTC end less the UTC start that \<open>add\<close> stores is the local end less the local start
  when the local end is after the local start, and the local end plus 24 hours less the
  local start otherwise: the offset cancels.
\<close>

theorem add_keeps_window_length:
  assumes "sh \<le> 23" "sm \<le> 59" "eh \<le> 23" "em \<le> 59"
    and "add (offset_service utc_offset) date_today location (sh, sm) (eh, em) g = Inr g'"
  shows "(date_today + 60 * int eh + int em > date_today + 60 * int sh + int sm \<longrightarrow>
            last (endTimes g') - last (startTimes g')
              = (date_today + 60 * int eh + int em) - (date_today + 60 * int sh + int sm))
       \<and> (date_today + 60 * int eh + int em \<le> date_today + 60 * int sh + int sm \<longrightarrow>
            last (endTimes g') - last (startTimes g')
              = (date_today + 60 * int eh + int em + 1440) - (date_today + 60 * int sh + int sm))"
proof -
  from assms(5) have g': "g' = g\<lparr>startTimes := startTimes g
                 @ [date_today + 60 * int sh + int sm - utc_offset location],
            endTimes := endTimes g
                 @ [date_today + 60 * int eh + int em - utc_offset location
                    + (if date_today + 60 * int eh + int em \<le> date_today + 60 * int sh + int sm
                       then 1440 else 0)],
            limit_count := limit_count g + 1\<rparr>"
    by (simp only: add_offset_service [OF assms(1-4)] sum.inject)
  show ?thesis
    by (simp add: g')
qed

text \<open>
  The statement for the limit 22:00--06:00 at the offset -05:00: start 03:00 and end
  11:00 of the next day, eight hours apart; and for 09:00--17:00 at +02:00.
\<close>

theorem add_keeps_window_length_witness:
  "add (offset_service (\<lambda>location. - 300)) 0 ''US,NY'' (22, 0) (6, 0)
       \<lparr>startTimes = [], endTimes = [], limit_count = 0\<rparr>
     = Inr \<lparr>startTimes = [1620], endTimes = [2100], limit_count = 1\<rparr>
   \<and> last [2100 :: int] - last [1620] = (0 + 60 * int 6 + int 0 + 1440) - (0 + 60 * int 22 + int 0)
   \<and> add (offset_service (\<lambda>location. 120)) 0 ''ZA,JNB'' (9, 0) (17, 0)
       \<lparr>startTimes = [], endTimes = [], limit_count = 0\<rparr>
     = Inr \<lparr>startTimes = [420], endTimes = [900], limit_count = 1\<rparr>
   \<and> last [900 :: int] - last [420] = (0 + 60 * int 17 + int 0) - (0 + 60 * int 9 + int 0)"
proof -
  have h: "(22::nat) \<le> 23" "(0::nat) \<le> 59" "(6::nat) \<le> 23" "(9::nat) \<le> 23" "(17::nat) \<le> 23"
    by simp_all
  have a1: "add (offset_service (\<lambda>location. - 300)) 0 ''US,NY'' (22, 0) (6, 0)
       \<lparr>startTimes = [], endTimes = [], limit_count = 0\<rparr>
     = Inr \<lparr>startTimes = [1620], endTimes = [2100], limit_count = 1\<rparr>"
    by (simp add: add_def strptime_today_def convertToUTC_def offset_service_def)
  have a2: "add (offset_service (\<lambda>location. 120)) 0 ''ZA,JNB'' (9, 0) (17, 0)
       \<lparr>startTimes = [], endTimes = [], limit_count = 0\<rparr>
     = Inr \<lparr>startTimes = [420], endTimes = [900], limit_count = 1\<rparr>"
    by (simp add: add_def strptime_today_def convertToUTC_def offset_service_def)
  from a1 a2 add_keeps_window_length [OF h(1) h(2) h(3) h(2) a1]
    add_keeps_window_length [OF h(4) h(2) h(5) h(2) a2]
  show ?thesis by simp
qed

section \<open>The legacy \<open>run\<close>\<close>

text \<open>
  The two loops of \<open>run\<close> keep the earliest start and the latest end, not the latest
  start and the earliest end that their comments announce; and where the start kept is
  before the end kept, \<open>run\<close> raises \<open>AttributeError\<close> instead of printing a time frame.
\<close>

lemma run_start_loop_Min:
  "run_start_loop s0 items = Min (set (s0 # items))"
proof -
  have "foldl (\<lambda>a item. if a > item then item else a) a items = fold min items a"
    for a :: datetime
    by (induction items arbitrary: a) (simp_all add: min_def)
  then show ?thesis
    by (simp only: run_start_loop_def Min.set_eq_fold)
qed

lemma run_end_loop_Max:
  "run_end_loop e0 items = Max (set (e0 # items))"
proof -
  have "foldl (\<lambda>a item. if a < item then item else a) a items = fold max items a"
    for a :: datetime
    by (induction items arbitrary: a) (simp_all add: max_def)
  then show ?thesis
    by (simp only: run_end_loop_def Max.set_eq_fold)
qed

lemma run_two_limits:
  "run_start_loop 600 (startTimes two_limits) = 540"
  "run_end_loop 1020 (endTimes two_limits) = 1080"
  "run two_limits = Inl AttributeError"
  by (simp_all add: run_def run_start_loop_def run_end_loop_def two_limits_def)

section \<open>The rows of \<open>vis\<close>\<close>

text \<open>
  A loop of the first kind appends some number \<open>k\<close> of marks: every step before the
  \<open>k\<close>-th begins before the bound, and the \<open>k\<close>-th does not.
\<close>

lemma while_before_steps:
  "\<exists>k. while_before mark bound (r, out, c) = (r + 30 * int k, out @ replicate k mark, c + k)
       \<and> (\<forall>j<k. r + 30 * int j < bound) \<and> bound \<le> r + 30 * int k"
proof (induction mark bound "(r, out, c)" arbitrary: r out c rule: while_before.induct)
  case (1 mark bound r out c)
  show ?case
  proof (cases "r < bound")
    case False
    then have "while_before mark bound (r, out, c) = (r + 30 * int 0, out @ replicate 0 mark, c + 0)"
      by (simp add: while_before.simps)
    moreover from False have "bound \<le> r + 30 * int 0" by simp
    ultimately show ?thesis by blast
  next
    case True
    from "1.hyps" [OF True] obtain k where
      w: "while_before mark bound (r + 30, out @ [mark], c + 1)
            = (r + 30 + 30 * int k, (out @ [mark]) @ replicate k mark, c + 1 + k)"
      and b: "\<forall>j<k. r + 30 + 30 * int j < bound" and e: "bound \<le> r + 30 + 30 * int k"
      by blast
    have "while_before mark bound (r, out, c)
            = (r + 30 * int (Suc k), out @ replicate (Suc k) mark, c + Suc k)"
      using True w by (subst while_before.simps) (simp add: algebra_simps)
    moreover have "\<forall>j<Suc k. r + 30 * int j < bound"
    proof (intro allI impI)
      fix j assume "j < Suc k"
      show "r + 30 * int j < bound"
      proof (cases j)
        case 0
        with True show ?thesis by simp
      next
        case (Suc j')
        with \<open>j < Suc k\<close> b have "r + 30 + 30 * int j' < bound" by simp
        with Suc show ?thesis by (simp add: algebra_simps)
      qed
    qed
    moreover from e have "bound \<le> r + 30 * int (Suc k)" by (simp add: algebra_simps)
    ultimately show ?thesis by blast
  qed
qed

text \<open>The third loop appends bars until the counter is 49: none when it is there already.\<close>

lemma while_counter_steps:
  "while_counter (r, out, c) = (r + 30 * int (49 - c), out @ replicate (49 - c) (CHR ''|''), c + (49 - c))"
proof (induction "(r, out, c)" arbitrary: r out c rule: while_counter.induct)
  case (1 r out c)
  show ?case
  proof (cases "c < 49")
    case False
    then show ?thesis by (simp add: while_counter.simps)
  next
    case True
    then have s: "49 - c = Suc (49 - (c + 1))" by simp
    from "1.hyps" [OF True] True show ?thesis
      by (subst while_counter.simps) (simp add: s algebra_simps del: replicate_Suc
            add: replicate_Suc [symmetric] replicate_app_Cons_same)
  qed
qed

text \<open>
  One row: bars for the steps before the start, blanks for the further steps before the
  end, then the bars of the third loop. Every mark is the mark of its bucket seen from
  \<open>startTimes[0]\<close>, and the row reaches every bucket that begins before the end.
\<close>

lemma vis_row_marks:
  assumes n: "n < length (endTimes g)"
  shows "\<exists>row c'. vis_row g n c = Inr (row, c')
       \<and> (\<forall>i<length row. row ! i = window_mark (startTimes g ! 0) (startTimes g ! n, endTimes g ! n) i)
       \<and> (\<forall>i. startTimes g ! 0 + 30 * int i < endTimes g ! n \<longrightarrow> i < length row)
       \<and> (c = 0 \<and> n = 0 \<and> endTimes g ! 0 \<le> startTimes g ! 0 + 1470 \<longrightarrow> length row = 49)"
proof -
  define origin where "origin = startTimes g ! 0"
  define s where "s = startTimes g ! n"
  define e where "e = endTimes g ! n"
  obtain a where
    w1: "while_before (CHR ''|'') s (origin, [], c)
           = (origin + 30 * int a, replicate a (CHR ''|''), c + a)"
    and a1: "\<forall>j<a. origin + 30 * int j < s" and a2: "s \<le> origin + 30 * int a"
    using while_before_steps [of "CHR ''|''" s origin "[]" c] by auto
  obtain b where
    w2: "while_before (CHR '' '') e (origin + 30 * int a, replicate a (CHR ''|''), c + a)
           = (origin + 30 * int a + 30 * int b,
              replicate a (CHR ''|'') @ replicate b (CHR '' ''), c + a + b)"
    and b1: "\<forall>j<b. origin + 30 * int a + 30 * int j < e"
    and b2: "e \<le> origin + 30 * int a + 30 * int b"
    using while_before_steps [of "CHR '' ''" e "origin + 30 * int a" "replicate a (CHR ''|'')" "c + a"]
    by auto
  define p where "p = 49 - (c + a + b)"
  define row where "row = replicate a (CHR ''|'') @ replicate b (CHR '' '') @ replicate p (CHR ''|'')"
  have len: "length row = a + b + p" by (simp add: row_def)
  have res: "vis_row g n c = Inr (row, c + a + b + p)"
    using n
    by (simp add: vis_row_def Let_def origin_def [symmetric] s_def [symmetric] e_def [symmetric]
          w1 w2 while_counter_steps p_def row_def)
  have marks: "row ! i = window_mark origin (s, e) i" if i: "i < length row" for i
  proof -
    consider "i < a" | "a \<le> i" "i < a + b" | "a + b \<le> i" by linarith
    then show ?thesis
    proof cases
      case 1
      then have "row ! i = CHR ''|''" by (simp add: row_def nth_append)
      moreover from 1 a1 have "origin + 30 * int i < s" by blast
      ultimately show ?thesis by (simp add: window_mark_def)
    next
      case 2
      then have "row ! i = CHR '' ''" by (simp add: row_def nth_append)
      moreover from 2 a2 have "s \<le> origin + 30 * int i" by simp
      moreover have "origin + 30 * int i < e"
      proof -
        from 2 have "i - a < b" by simp
        with b1 have "origin + 30 * int a + 30 * int (i - a) < e" by blast
        with 2 show ?thesis by (simp add: of_nat_diff)
      qed
      ultimately show ?thesis by (simp add: window_mark_def)
    next
      case 3
      with i len have "row ! i = CHR ''|''" by (simp add: row_def nth_append)
      moreover from 3 b2 have "e \<le> origin + 30 * int i" by simp
      ultimately show ?thesis by (simp add: window_mark_def)
    qed
  qed
  have reach: "i < length row" if "origin + 30 * int i < e" for i
  proof -
    from that b2 have "30 * int i < 30 * int (a + b)" by simp
    then have "i < a + b" by simp
    with len show ?thesis by simp
  qed
  have first: "length row = 49" if "c = 0" "n = 0" "endTimes g ! 0 \<le> startTimes g ! 0 + 1470"
  proof -
    from that have se: "s = origin" "e \<le> origin + 1470" by (simp_all add: s_def e_def origin_def)
    have "a = 0"
    proof (rule ccontr)
      assume "a \<noteq> 0"
      then have "0 < a" by simp
      with a1 have "origin + 30 * int 0 < s" by blast
      with se show False by simp
    qed
    moreover have "b \<le> 49"
    proof (rule ccontr)
      assume "\<not> b \<le> 49"
      then have "49 < b" by simp
      with b1 have "origin + 30 * int a + 30 * int 49 < e" by blast
      with \<open>a = 0\<close> se show False by simp
    qed
    ultimately show ?thesis using that len by (simp add: p_def)
  qed
  from res marks reach first show ?thesis
    unfolding origin_def s_def e_def by blast
qed

text \<open>The rows of the \<open>for\<close> loop, one for each index, whatever the counter it starts with.\<close>

lemma vis_rows_marks:
  assumes "\<forall>n\<in>set ns. n < length (endTimes g)"
  shows "\<exists>rows. vis_rows g ns c = Inr rows \<and> length rows = length ns
       \<and> (\<forall>m<length ns.
             (\<forall>i<length (rows ! m). rows ! m ! i
                = window_mark (startTimes g ! 0) (startTimes g ! (ns ! m), endTimes g ! (ns ! m)) i)
           \<and> (\<forall>i. startTimes g ! 0 + 30 * int i < endTimes g ! (ns ! m) \<longrightarrow> i < length (rows ! m)))
       \<and> (ns \<noteq> [] \<and> c = 0 \<and> hd ns = 0 \<and> endTimes g ! 0 \<le> startTimes g ! 0 + 1470
            \<longrightarrow> length (rows ! 0) = 49)"
  using assms
proof (induction ns arbitrary: c)
  case Nil
  then show ?case by simp
next
  case (Cons n ns)
  from Cons.prems have n: "n < length (endTimes g)" and ns: "\<forall>n\<in>set ns. n < length (endTimes g)"
    by simp_all
  from vis_row_marks [OF n, of c] obtain row c' where
    r: "vis_row g n c = Inr (row, c')"
    and rm: "\<forall>i<length row. row ! i = window_mark (startTimes g ! 0) (startTimes g ! n, endTimes g ! n) i"
    and rr: "\<forall>i. startTimes g ! 0 + 30 * int i < endTimes g ! n \<longrightarrow> i < length row"
    and rf: "c = 0 \<and> n = 0 \<and> endTimes g ! 0 \<le> startTimes g ! 0 + 1470 \<longrightarrow> length row = 49"
    by blast
  from Cons.IH [OF ns, of c'] obtain rows where
    rs: "vis_rows g ns c' = Inr rows" and rl: "length rows = length ns"
    and rsm: "\<forall>m<length ns.
             (\<forall>i<length (rows ! m). rows ! m ! i
                = window_mark (startTimes g ! 0) (startTimes g ! (ns ! m), endTimes g ! (ns ! m)) i)
           \<and> (\<forall>i. startTimes g ! 0 + 30 * int i < endTimes g ! (ns ! m) \<longrightarrow> i < length (rows ! m))"
    by blast
  have v: "vis_rows g (n # ns) c = Inr (row # rows)" by (simp add: r rs)
  have all: "(\<forall>i<length ((row # rows) ! m). (row # rows) ! m ! i
                = window_mark (startTimes g ! 0)
                    (startTimes g ! ((n # ns) ! m), endTimes g ! ((n # ns) ! m)) i)
           \<and> (\<forall>i. startTimes g ! 0 + 30 * int i < endTimes g ! ((n # ns) ! m)
                  \<longrightarrow> i < length ((row # rows) ! m))"
    if "m < length (n # ns)" for m
  proof (cases m)
    case 0
    with rm rr show ?thesis by simp
  next
    case (Suc m')
    with that have "m' < length ns" by simp
    with rsm Suc show ?thesis by simp
  qed
  from v rl all rf show ?case by simp
qed

text \<open>
  The two lists grow together: \<open>add\<close> appends one instant to each, \<open>clear\<close> empties both.
\<close>

lemma add_keeps_lengths:
  assumes "add service date_today location time_stamp0 time_stamp1 g = Inr g'"
    and "length (endTimes g) = length (startTimes g)"
  shows "length (endTimes g') = length (startTimes g')"
  using assms by (auto simp: add_def split: sum.splits if_splits)

lemma clear_keeps_lengths:
  "length (endTimes (clear g)) = length (startTimes (clear g))"
  by (simp add: clear_def)

text \<open>
  Claim C9, as stated, at the limits 10:00--17:00 and 09:00--18:00 stored in this order.
  The least start is 09:00, but the rows are drawn from 10:00, the start stored first;
  the first row has 49 marks and the second 16, neither has 48; and the second row shows
  16 buckets inside where the window holds 18. The rows differ from the rows of the
  specification.
\<close>

theorem vis_two_limits_counterexample:
  "vis two_limits = Inr [replicate 14 (CHR '' '') @ replicate 35 (CHR ''|''), replicate 16 (CHR '' '')]
   \<and> spec_vis two_limits =
         [replicate 2 (CHR ''|'') @ replicate 14 (CHR '' '') @ replicate 32 (CHR ''|''),
          replicate 18 (CHR '' '') @ replicate 30 (CHR ''|'')]
   \<and> vis two_limits \<noteq> Inr (spec_vis two_limits)
   \<and> startTimes two_limits ! 0 \<noteq> Min (set (startTimes two_limits))"
proof -
  have v: "vis two_limits
      = Inr [replicate 14 (CHR '' '') @ replicate 35 (CHR ''|''), replicate 16 (CHR '' '')]"
    by code_simp
  have s: "spec_vis two_limits =
         [replicate 2 (CHR ''|'') @ replicate 14 (CHR '' '') @ replicate 32 (CHR ''|''),
          replicate 18 (CHR '' '') @ replicate 30 (CHR ''|'')]"
    by code_simp
  have d: "vis two_limits \<noteq> Inr (spec_vis two_limits)"
    by code_simp
  have m: "startTimes two_limits ! 0 \<noteq> Min (set (startTimes two_limits))"
    by (simp add: two_limits_def)
  from v s d m show ?thesis by blast
qed

text \<open>
  Claim C9, amended. For limits that are not empty, with as many ends as starts, \<open>vis\<close>
  prints one row for each limit. The origin of every row is the start stored first, the
  buckets are half hours counted from it, and each mark of a row is the mark of its
  bucket: inside (a blank) exactly when the bucket's instant lies in the window of the
  limit from its start (inclusive) to its end (exclusive), outside (a bar) otherwise.
  Each row reaches every bucket from the origin that begins before the end of its limit.
  The first row has 49 marks when the first limit ends no later than 49 half hours after
  its start.
\<close>

theorem vis_marks_from_first_start:
  assumes "startTimes g \<noteq> []" and "length (endTimes g) = length (startTimes g)"
  shows "\<exists>rows. vis g = Inr rows \<and> length rows = length (startTimes g)
       \<and> (\<forall>n<length rows.
             (\<forall>i<length (rows ! n). rows ! n ! i
                = window_mark (startTimes g ! 0) (startTimes g ! n, endTimes g ! n) i)
           \<and> (\<forall>i. startTimes g ! 0 + 30 * int i < endTimes g ! n \<longrightarrow> i < length (rows ! n)))
       \<and> (endTimes g ! 0 \<le> startTimes g ! 0 + 1470 \<longrightarrow> length (rows ! 0) = 49)"
proof -
  let ?ns = "[0 ..< length (startTimes g)]"
  from assms(2) have inr: "\<forall>n\<in>set ?ns. n < length (endTimes g)" by simp
  from assms(1) have ne: "?ns \<noteq> []" and hd0: "hd ?ns = 0" by (simp_all add: upt_conv_Cons)
  from vis_rows_marks [OF inr, of 0] obtain rows where
    r: "vis_rows g ?ns 0 = Inr rows" and l: "length rows = length ?ns"
    and m: "\<forall>m<length ?ns.
             (\<forall>i<length (rows ! m). rows ! m ! i
                = window_mark (startTimes g ! 0) (startTimes g ! (?ns ! m), endTimes g ! (?ns ! m)) i)
           \<and> (\<forall>i. startTimes g ! 0 + 30 * int i < endTimes g ! (?ns ! m) \<longrightarrow> i < length (rows ! m))"
    and f: "?ns \<noteq> [] \<and> (0::nat) = 0 \<and> hd ?ns = 0 \<and> endTimes g ! 0 \<le> startTimes g ! 0 + 1470
            \<longrightarrow> length (rows ! 0) = 49"
    by blast
  have v: "vis g = Inr rows" by (simp add: vis_def r)
  have l': "length rows = length (startTimes g)" using l by simp
  have m': "(\<forall>i<length (rows ! n). rows ! n ! i
                = window_mark (startTimes g ! 0) (startTimes g ! n, endTimes g ! n) i)
           \<and> (\<forall>i. startTimes g ! 0 + 30 * int i < endTimes g ! n \<longrightarrow> i < length (rows ! n))"
    if "n < length rows" for n
  proof -
    from that l' have n: "n < length ?ns" by simp
    then have "?ns ! n = n" by simp
    with m n show ?thesis by metis
  qed
  have f': "endTimes g ! 0 \<le> startTimes g ! 0 + 1470 \<longrightarrow> length (rows ! 0) = 49"
    using f ne hd0 by blast
  from v l' m' f' show ?thesis by blast
qed

text \<open>
  The amended statement at the two limits above: two rows, the first of 49 marks, whose
  first mark is a blank, the bucket of 10:00 being inside 10:00--17:00.
\<close>

theorem vis_marks_from_first_start_witness:
  "startTimes two_limits \<noteq> []
   \<and> length (endTimes two_limits) = length (startTimes two_limits)
   \<and> endTimes two_limits ! 0 \<le> startTimes two_limits ! 0 + 1470
   \<and> (\<exists>rows. vis two_limits = Inr rows \<and> length rows = 2 \<and> length (rows ! 0) = 49
         \<and> rows ! 0 ! 0 = CHR '' '')"
proof -
  have h1: "startTimes two_limits \<noteq> []" by (simp add: two_limits_def)
  have h2: "length (endTimes two_limits) = length (startTimes two_limits)"
    by (simp add: two_limits_def)
  have h3: "endTimes two_limits ! 0 \<le> startTimes two_limits ! 0 + 1470"
    by (simp add: two_limits_def)
  have l: "length (startTimes two_limits) = 2" by (simp add: two_limits_def)
  have w: "window_mark (startTimes two_limits ! 0)
             (startTimes two_limits ! 0, endTimes two_limits ! 0) 0 = CHR '' ''"
    by (simp add: two_limits_def window_mark_def)
  from vis_marks_from_first_start [OF h1 h2] obtain rows where
    v: "vis two_limits = Inr rows" and n: "length rows = length (startTimes two_limits)"
    and m: "\<forall>n<length rows.
             (\<forall>i<length (rows ! n). rows ! n ! i
                = window_mark (startTimes two_limits ! 0)
                    (startTimes two_limits ! n, endTimes two_limits ! n) i)
           \<and> (\<forall>i. startTimes two_limits ! 0 + 30 * int i < endTimes two_limits ! n
                  \<longrightarrow> i < length (rows ! n))"
    and f: "endTimes two_limits ! 0 \<le> startTimes two_limits ! 0 + 1470 \<longrightarrow> length (rows ! 0) = 49"
    by blast
  from f h3 have l0: "length (rows ! 0) = 49" by blast
  from n l have n2: "length rows = 2" by simp
  from m n2 l0 have "rows ! 0 ! 0 = window_mark (startTimes two_limits ! 0)
             (startTimes two_limits ! 0, endTimes two_limits ! 0) 0"
    by simp
  with w have c: "rows ! 0 ! 0 = CHR '' ''" by simp
  from h1 h2 h3 v n2 l0 c show ?thesis by blast
qed

end
